theory Spec2Isabelle
  imports Main "HOL-Library.Sublist"
begin

section \<open>The Governor app: ingestion queue and Slack drip worker\<close>

text \<open>
  A shallow embedding of \<^verbatim>\<open>heroku-app/index.js\<close>. The Express handler of
  \<^verbatim>\<open>POST /sfdc-audit-log\<close>, \<^verbatim>\<open>processQueue\<close> and \<^verbatim>\<open>postToSlack\<close> become functions
  that take the module-level \<^verbatim>\<open>messageQueue\<close> and the two environment variables as
  arguments and return what they leave behind.
\<close>

subsection \<open>JavaScript values\<close>

text \<open>
  What \<^verbatim>\<open>express.json()\<close> puts into \<^verbatim>\<open>req.body.token\<close> and \<^verbatim>\<open>req.body.logs\<close>, and so
  what the queue can hold: any JSON value, or \<^verbatim>\<open>undefined\<close> for a field the body does
  not have. The handler checks neither the elements of \<^verbatim>\<open>logs\<close> nor their fields, so
  a queued record is any such value.

  A number is given by the two things the program can learn of it, whether it is zero
  (ToBoolean) and how \<^verbatim>\<open>Number.prototype.toString\<close> writes it; the floating-point
  arithmetic behind them is not modelled. An object is given by its own properties.
\<close>

datatype jsval =
    JUndefined
  | JNull
  | JBool bool
  | JNum bool string
  | JStr string
  | JArr "jsval list"
  | JObj "string \<rightharpoonup> jsval"

text \<open>A thrown error: an \<^verbatim>\<open>Error\<close> with its message, or a \<^verbatim>\<open>TypeError\<close>.\<close>

datatype error = Error string | TypeError

text \<open>JavaScript's ToBoolean, as applied by \<^verbatim>\<open>!v\<close> and \<^verbatim>\<open>v || d\<close>.\<close>

fun truthy :: "jsval \<Rightarrow> bool" where
  "truthy JUndefined = False"
| "truthy JNull = False"
| "truthy (JBool b) = b"
| "truthy (JNum zero written) = (\<not> zero)"
| "truthy (JStr s) = (s \<noteq> [])"
| "truthy (JArr xs) = True"
| "truthy (JObj props) = True"

text \<open>\<^verbatim>\<open>v || d\<close>.\<close>

definition or_else :: "jsval \<Rightarrow> jsval \<Rightarrow> jsval" where
  "or_else v d = (if truthy v then v else d)"

fun nullish :: "jsval \<Rightarrow> bool" where
  "nullish JUndefined = True"
| "nullish JNull = True"
| "nullish v = False"

text \<open>
  JavaScript's ToString, as applied to \<^verbatim>\<open>${v}\<close> in a template literal. An array is
  written as its elements joined by commas, \<^verbatim>\<open>null\<close> and \<^verbatim>\<open>undefined\<close> elements as
  nothing. A parsed object is written \<^verbatim>\<open>[object Object]\<close> by the method it inherits;
  if it has a property \<^verbatim>\<open>toString\<close> of its own, that is JSON data and not callable, and
  neither \<^verbatim>\<open>valueOf\<close> gives a primitive, so the conversion throws a \<^verbatim>\<open>TypeError\<close>.
\<close>

fun toString :: "jsval \<Rightarrow> error + string"
  and join_elements :: "jsval list \<Rightarrow> error + string" where
  "toString JUndefined = Inr ''undefined''"
| "toString JNull = Inr ''null''"
| "toString (JBool b) = Inr (if b then ''true'' else ''false'')"
| "toString (JNum zero written) = Inr written"
| "toString (JStr s) = Inr s"
| "toString (JArr xs) = join_elements xs"
| "toString (JObj props) =
     (case props ''toString'' of
        None \<Rightarrow> Inr ''[object Object]''
      | Some v \<Rightarrow> Inl TypeError)"
| "join_elements [] = Inr []"
| "join_elements [x] = (if nullish x then Inr [] else toString x)"
| "join_elements (x # y # ys) =
     (case (if nullish x then Inr [] else toString x) of
        Inl e \<Rightarrow> Inl e
      | Inr s \<Rightarrow>
          (case join_elements (y # ys) of
             Inl e \<Rightarrow> Inl e
           | Inr r \<Rightarrow> Inr (s @ '','' @ r)))"

text \<open>
  \<^verbatim>\<open>v.name\<close> for the property names this program reads (\<^verbatim>\<open>Action\<close>, \<^verbatim>\<open>Section\<close>,
  \<^verbatim>\<open>Display\<close>, \<^verbatim>\<open>CreatedByUser\<close>, \<^verbatim>\<open>AuditCreatedDate\<close>, \<^verbatim>\<open>DelegateUser\<close>), which no
  prototype defines: a \<^verbatim>\<open>TypeError\<close> on \<^verbatim>\<open>null\<close> and \<^verbatim>\<open>undefined\<close>, the own property of
  an object, \<^verbatim>\<open>undefined\<close> everywhere else.
\<close>

fun get :: "jsval \<Rightarrow> string \<Rightarrow> error + jsval" where
  "get JUndefined name = Inl TypeError"
| "get JNull name = Inl TypeError"
| "get (JObj props) name = Inr (case props name of None \<Rightarrow> JUndefined | Some v \<Rightarrow> v)"
| "get v name = Inr JUndefined"

text \<open>An environment variable (\<^verbatim>\<open>process.env.X\<close>) is either \<^verbatim>\<open>undefined\<close> or a string.\<close>

fun opt_val :: "string option \<Rightarrow> jsval" where
  "opt_val None = JUndefined"
| "opt_val (Some s) = JStr s"

text \<open>
  \<^verbatim>\<open>v === e\<close> for an \<open>e\<close> that is \<^verbatim>\<open>undefined\<close> or a string: the two sides must have
  the same type and the same value.
\<close>

fun strict_eq :: "jsval \<Rightarrow> string option \<Rightarrow> bool" where
  "strict_eq JUndefined None = True"
| "strict_eq (JStr t) (Some s) = (t = s)"
| "strict_eq v e = False"

fun isArray :: "jsval \<Rightarrow> bool" where
  "isArray (JArr xs) = True"
| "isArray v = False"

text \<open>The elements of an array; only ever asked of a value that passed \<open>isArray\<close>.\<close>

fun elements :: "jsval \<Rightarrow> jsval list" where
  "elements (JArr xs) = xs"
| "elements v = []"

text \<open>A number inside a template literal: the decimal digits of a natural number.\<close>

fun show_nat :: "nat \<Rightarrow> string" where
  "show_nat n =
     (if n < 10 then [''0123456789'' ! n]
      else show_nat (n div 10) @ [''0123456789'' ! (n mod 10)])"

declare show_nat.simps [simp del]

subsection \<open>The in-memory queue\<close>

text \<open>
  \<^verbatim>\<open>messageQueue\<close> is a JavaScript array used through \<^verbatim>\<open>push(...items)\<close>,
  \<^verbatim>\<open>shift()\<close> and \<^verbatim>\<open>unshift(item)\<close>. \<^verbatim>\<open>shift\<close> on an empty array returns
  \<^verbatim>\<open>undefined\<close> and changes nothing.
\<close>

definition push :: "'a list \<Rightarrow> 'a list \<Rightarrow> 'a list" where
  "push queue items = queue @ items"

fun shift :: "'a list \<Rightarrow> 'a option \<times> 'a list" where
  "shift [] = (None, [])"
| "shift (x # xs) = (Some x, xs)"

definition unshift :: "'a \<Rightarrow> 'a list \<Rightarrow> 'a list" where
  "unshift item queue = item # queue"

text \<open>The results of \<open>n\<close> successive \<open>shift\<close> calls on a queue.\<close>

fun shifts :: "nat \<Rightarrow> 'a list \<Rightarrow> 'a option list" where
  "shifts 0 queue = []"
| "shifts (Suc n) queue = fst (shift queue) # shifts n (snd (shift queue))"

subsection \<open>The Salesforce endpoint\<close>

text \<open>What the handler sends back: \<^verbatim>\<open>res.status(code).send(body)\<close>.\<close>

record res =
  res_status :: nat
  res_body :: string

text \<open>
  The handler of \<^verbatim>\<open>POST /sfdc-audit-log\<close>, from the destructured \<^verbatim>\<open>token\<close> and
  \<^verbatim>\<open>logs\<close> on. It returns the response and the queue it leaves. The console lines are
  not modelled.
\<close>

definition sfdc_audit_log ::
  "string option \<Rightarrow> jsval \<Rightarrow> jsval \<Rightarrow> jsval list \<Rightarrow> res \<times> jsval list" where
  "sfdc_audit_log SALESFORCE_SECURITY_TOKEN token logs messageQueue =
     (if \<not> truthy (opt_val SALESFORCE_SECURITY_TOKEN) then
        (\<lparr>res_status = 500, res_body = ''Server configuration error.''\<rparr>, messageQueue)
      else if \<not> truthy token \<or> \<not> strict_eq token SALESFORCE_SECURITY_TOKEN then
        (\<lparr>res_status = 401, res_body = ''Unauthorized: Invalid token.''\<rparr>, messageQueue)
      else if \<not> truthy logs \<or> \<not> isArray logs \<or> length (elements logs) = 0 then
        (\<lparr>res_status = 202, res_body = ''Accepted. No logs to process.''\<rparr>, messageQueue)
      else
        (let logsToQueue = rev (elements logs) in
           (\<lparr>res_status = 202,
             res_body = ''Accepted. Queued '' @ show_nat (length logsToQueue) @ '' new logs.''\<rparr>,
            push messageQueue logsToQueue)))"

text \<open>Requests handled one after the other, each given as its \<open>token\<close> and \<open>logs\<close>.\<close>

fun handle_all :: "string option \<Rightarrow> (jsval \<times> jsval) list \<Rightarrow> jsval list \<Rightarrow> jsval list" where
  "handle_all secret [] queue = queue"
| "handle_all secret ((token, logs) # reqs) queue =
     handle_all secret reqs (snd (sfdc_audit_log secret token logs queue))"

subsection \<open>The Slack posting function\<close>

text \<open>The object that is serialised into the body of the POST: \<^verbatim>\<open>{ text: ... }\<close>.\<close>

record message =
  message_text :: string

definition newline :: string where
  "newline = [CHR 0x0A]"

text \<open>An evaluation that may throw, followed by one that uses its value.\<close>

definition and_then :: "error + 'a \<Rightarrow> ('a \<Rightarrow> error + 'b) \<Rightarrow> error + 'b" where
  "and_then r f = (case r of Inl e \<Rightarrow> Inl e | Inr x \<Rightarrow> f x)"

text \<open>\<^verbatim>\<open>${log.name || 'N/A'}\<close>: the property is read, defaulted and converted to a string.\<close>

definition field_text :: "jsval \<Rightarrow> string \<Rightarrow> error + string" where
  "field_text log name =
     and_then (get log name) (\<lambda>v. toString (or_else v (JStr ''N/A'')))"

text \<open>The \<^verbatim>\<open>message\<close> object of \<^verbatim>\<open>postToSlack\<close>, or the error its construction throws.\<close>

definition slack_message :: "jsval \<Rightarrow> error + message" where
  "slack_message log =
     and_then (field_text log ''Action'') (\<lambda>v1.
     and_then (field_text log ''Section'') (\<lambda>v2.
     and_then (field_text log ''Display'') (\<lambda>v3.
     and_then (field_text log ''CreatedByUser'') (\<lambda>v4.
     and_then (field_text log ''AuditCreatedDate'') (\<lambda>v5.
     and_then (field_text log ''DelegateUser'') (\<lambda>v6.
       Inr \<lparr>message_text =
              ''*Action:* '' @ v1 @ newline @
              ''*Section:* '' @ v2 @ newline @
              ''*Display:* '' @ v3 @ newline @
              ''*Created By User:* '' @ v4 @ newline @
              ''*Created Date:* '' @ v5 @ newline @
              ''*Delegate User:* '' @ v6\<rparr>))))))"

text \<open>
  What \<^verbatim>\<open>await p\<close> meets: the promise never settles, or it settles so many
  milliseconds after the call, rejected (\<open>Inl\<close>) or fulfilled (\<open>Inr\<close>). The time the
  program itself takes between two awaits counts as zero.
\<close>

datatype 'a awaited = Pending | Settled nat "error + 'a"

text \<open>
  The response \<^verbatim>\<open>fetch\<close> resolves to: its status and the body that
  \<^verbatim>\<open>response.text()\<close> reads. \<^verbatim>\<open>response.ok\<close> is node-fetch's getter: the status is
  in the range 200 to 299.
\<close>

record response =
  status :: nat
  body_text :: string

definition ok :: "response \<Rightarrow> bool" where
  "ok r = (200 \<le> status r \<and> status r < 300)"

text \<open>
  The Slack webhook as the program sees it: \<^verbatim>\<open>fetch(url, {method: 'POST', headers,
  body: JSON.stringify(message)})\<close>, given the URL and the message. A network error is a
  rejection. The time of a response includes the reading of its body.
\<close>

type_synonym fetch = "string \<Rightarrow> message \<Rightarrow> response awaited"

text \<open>
  \<^verbatim>\<open>postToSlack\<close> is an \<^verbatim>\<open>async\<close> function: what is thrown in its body, also while
  the message is built, rejects the promise it returns.
\<close>

fun postToSlack :: "string option \<Rightarrow> fetch \<Rightarrow> jsval \<Rightarrow> unit awaited" where
  "postToSlack SLACK_WEBHOOK_URL fetch log =
     (if \<not> truthy (opt_val SLACK_WEBHOOK_URL) then Settled 0 (Inr ())
      else
        (case slack_message log of
           Inl e \<Rightarrow> Settled 0 (Inl e)
         | Inr message \<Rightarrow>
             (case fetch (case SLACK_WEBHOOK_URL of Some url \<Rightarrow> url | None \<Rightarrow> []) message of
                Pending \<Rightarrow> Pending
              | Settled t (Inl e) \<Rightarrow> Settled t (Inl e)
              | Settled t (Inr response) \<Rightarrow>
                  if \<not> ok response then
                    Settled t (Inl (Error (''Slack API error: '' @ show_nat (status response)
                                             @ '' '' @ body_text response)))
                  else Settled t (Inr ()))))"

declare postToSlack.simps [simp del]

subsection \<open>The drip worker\<close>

definition THROTTLE_DELAY_MS :: nat where
  "THROTTLE_DELAY_MS = 1100"

text \<open>
  The line that \<^verbatim>\<open>processQueue\<close> writes to the console after \<^verbatim>\<open>postToSlack\<close> has
  returned: \<^verbatim>\<open>`Posted log to Slack: ${log.Action} by ${log.CreatedByUser}`\<close>. It is
  evaluated inside the \<^verbatim>\<open>try\<close>, and reading the properties or converting them may
  throw.
\<close>

definition posted_line :: "jsval \<Rightarrow> error + string" where
  "posted_line log =
     and_then (get log ''Action'') (\<lambda>action.
     and_then (toString action) (\<lambda>a.
     and_then (get log ''CreatedByUser'') (\<lambda>user.
     and_then (toString user) (\<lambda>u.
       Inr (''Posted log to Slack: '' @ a @ '' by '' @ u)))))"

text \<open>
  One run of \<^verbatim>\<open>processQueue\<close>: the queue it leaves, the record it handed to
  \<^verbatim>\<open>postToSlack\<close> (if any), and after how many milliseconds from its start the timer
  of the next run fires (\<open>None\<close>: \<^verbatim>\<open>setTimeout\<close> is never reached). The second
  equation is the path past the length check, where \<^verbatim>\<open>shift()\<close> splits the queue
  into its head \<open>log\<close> and the rest. The \<^verbatim>\<open>catch\<close> is entered when \<^verbatim>\<open>postToSlack\<close>
  rejects and when the console line after it throws. No request is handled between the
  \<^verbatim>\<open>shift\<close> and the end of the run.
\<close>

record tick =
  queue_after :: "jsval list"
  attempted :: "jsval option"
  next_run :: "nat option"

fun processQueue :: "string option \<Rightarrow> fetch \<Rightarrow> jsval list \<Rightarrow> tick" where
  "processQueue SLACK_WEBHOOK_URL fetch [] =
     \<lparr>queue_after = [], attempted = None, next_run = Some THROTTLE_DELAY_MS\<rparr>"
| "processQueue SLACK_WEBHOOK_URL fetch (log # messageQueue) =
     (case postToSlack SLACK_WEBHOOK_URL fetch log of
        Settled t (Inr u) \<Rightarrow>
          (case posted_line log of
             Inr line \<Rightarrow>
               \<lparr>queue_after = messageQueue, attempted = Some log,
                next_run = Some (t + THROTTLE_DELAY_MS)\<rparr>
           | Inl e \<Rightarrow>
               \<lparr>queue_after = unshift log messageQueue, attempted = Some log,
                next_run = Some (t + THROTTLE_DELAY_MS)\<rparr>)
      | Settled t (Inl e) \<Rightarrow>
          \<lparr>queue_after = unshift log messageQueue, attempted = Some log,
           next_run = Some (t + THROTTLE_DELAY_MS)\<rparr>
      | Pending \<Rightarrow>
          \<lparr>queue_after = messageQueue, attempted = Some log, next_run = None\<rparr>)"

subsection \<open>The running process\<close>

text \<open>
  The process between two events: the queue, whether a timer for \<^verbatim>\<open>processQueue\<close>
  is set, and (for the statements below) every record handed to \<^verbatim>\<open>postToSlack\<close> so
  far, oldest first. An event is a request to the endpoint or the timer firing against
  the Slack of that moment.
\<close>

record server =
  messageQueue :: "jsval list"
  timer_set :: bool
  attempts :: "jsval list"

datatype event = Request jsval jsval | Tick fetch

fun step :: "string option \<Rightarrow> string option \<Rightarrow> event \<Rightarrow> server \<Rightarrow> server" where
  "step secret url (Request token logs) s =
     s\<lparr>messageQueue := snd (sfdc_audit_log secret token logs (messageQueue s))\<rparr>"
| "step secret url (Tick fetch) s =
     (if timer_set s then
        (let r = processQueue url fetch (messageQueue s) in
           \<lparr>messageQueue = queue_after r,
            timer_set = (next_run r \<noteq> None),
            attempts = attempts s @ (case attempted r of None \<Rightarrow> [] | Some log \<Rightarrow> [log])\<rparr>)
      else s)"

fun run :: "string option \<Rightarrow> string option \<Rightarrow> event list \<Rightarrow> server \<Rightarrow> server" where
  "run secret url [] s = s"
| "run secret url (ev # evs) s = run secret url evs (step secret url ev s)"

text \<open>Whether an awaited call threw.\<close>

fun rejected :: "'a awaited \<Rightarrow> bool" where
  "rejected (Settled t (Inl e)) = True"
| "rejected p = False"

text \<open>Whether an evaluation threw.\<close>

fun throws :: "error + 'a \<Rightarrow> bool" where
  "throws (Inl e) = True"
| "throws (Inr x) = False"

text \<open>
  Whether the delivery attempt of an event fails: a timer firing on a non-empty queue whose
  \<^verbatim>\<open>postToSlack\<close> call throws. An event that attempts no delivery has none that
  could succeed.
\<close>

fun attempt_fails :: "string option \<Rightarrow> event \<Rightarrow> server \<Rightarrow> bool" where
  "attempt_fails url (Request token logs) s = True"
| "attempt_fails url (Tick fetch) s =
     (case messageQueue s of
        [] \<Rightarrow> True
      | log # rest \<Rightarrow> rejected (postToSlack url fetch log))"

text \<open>Whether every delivery attempt made while the events are handled in turn fails.\<close>

fun every_attempt_fails ::
  "string option \<Rightarrow> string option \<Rightarrow> event list \<Rightarrow> server \<Rightarrow> bool" where
  "every_attempt_fails secret url [] s = True"
| "every_attempt_fails secret url (ev # evs) s =
     (attempt_fails url ev s \<and> every_attempt_fails secret url evs (step secret url ev s))"

text \<open>The states the process goes through, the first one included.\<close>

fun trace :: "string option \<Rightarrow> string option \<Rightarrow> event list \<Rightarrow> server \<Rightarrow> server list" where
  "trace secret url [] s = [s]"
| "trace secret url (ev # evs) s = s # trace secret url evs (step secret url ev s)"

fun is_tick :: "event \<Rightarrow> bool" where
  "is_tick (Tick fetch) = True"
| "is_tick (Request token logs) = False"

subsection \<open>The words of the specification\<close>

text \<open>
  The newline-join of lines and a \<^verbatim>\<open>*Label:* value\<close> line, as the description of the
  outbound payload names them; the message of the program is compared with them below.
\<close>

fun spec_join :: "string \<Rightarrow> string list \<Rightarrow> string" where
  "spec_join sep [] = []"
| "spec_join sep [x] = x"
| "spec_join sep (x # y # ys) = x @ sep @ spec_join sep (y # ys)"

definition spec_line :: "string \<Rightarrow> string \<Rightarrow> string" where
  "spec_line label v = ''*'' @ label @ '':* '' @ v"

text \<open>
  A log record as the data model describes it: an object all of whose fields are strings.
\<close>

definition string_record :: "(string \<rightharpoonup> string) \<Rightarrow> jsval" where
  "string_record props = JObj (map_option JStr \<circ> props)"

subsection \<open>Example records and Slack behaviours\<close>

definition hook :: string where
  "hook = ''https://hooks.slack.com/services/T0/B0/X''"

definition slack_up :: fetch where
  "slack_up url msg = Settled 120 (Inr \<lparr>status = 200, body_text = ''ok''\<rparr>)"

definition slack_slow :: fetch where
  "slack_slow url msg = Settled 5000 (Inr \<lparr>status = 200, body_text = ''ok''\<rparr>)"

definition slack_refuses :: fetch where
  "slack_refuses url msg =
     Settled 80 (Inr \<lparr>status = 503, body_text = ''service_unavailable''\<rparr>)"

definition slack_unreachable :: fetch where
  "slack_unreachable url msg = Settled 30 (Inl (Error ''connect ECONNREFUSED''))"

definition slack_hangs :: fetch where
  "slack_hangs url msg = Pending"

definition login :: jsval where
  "login = JObj [''Action'' \<mapsto> JStr ''Login'', ''CreatedByUser'' \<mapsto> JStr ''bob'']"

definition export :: jsval where
  "export =
     JObj [''Action'' \<mapsto> JStr ''Export'', ''CreatedByUser'' \<mapsto> JStr ''alice'',
           ''Section'' \<mapsto> JStr []]"

section \<open>Properties of ingestion\<close>

lemma shifts_append: "shifts (length xs + n) (xs @ ys) = map Some xs @ shifts n ys"
  by (induction xs) simp_all

lemma shifts_all: "shifts (length xs) xs = map Some xs"
  using shifts_append [of xs 0 "[]"] by simp

text \<open>
  C2. With the secret configured, a token equal to it and a batch that is a non-empty
  array, the handler answers 202 and leaves the old queue followed by the batch in
  reversed order, so the length grows by the length of the batch; a batch
  \<open>[r1, r2, r3]\<close> comes out of successive \<open>shift\<close> calls as \<open>r3\<close>, \<open>r2\<close>, \<open>r1\<close>, after
  the records that were queued before it.
\<close>

theorem ingest_appends_reversed_batch:
  assumes "secret \<noteq> []" and "batch \<noteq> []"
  shows "snd (sfdc_audit_log (Some secret) (JStr secret) (JArr batch) queue) = queue @ rev batch
       \<and> length (snd (sfdc_audit_log (Some secret) (JStr secret) (JArr batch) queue))
           = length queue + length batch
       \<and> res_status (fst (sfdc_audit_log (Some secret) (JStr secret) (JArr batch) queue)) = 202
       \<and> shifts (length queue + 3)
            (snd (sfdc_audit_log (Some secret) (JStr secret) (JArr [r1, r2, r3]) queue))
           = map Some queue @ [Some r3, Some r2, Some r1]"
proof -
  have all: "snd (sfdc_audit_log (Some secret) (JStr secret) (JArr batch) queue) = queue @ rev batch"
    using assms by (simp add: sfdc_audit_log_def push_def)
  have code: "res_status (fst (sfdc_audit_log (Some secret) (JStr secret) (JArr batch) queue)) = 202"
    using assms by (simp add: sfdc_audit_log_def)
  have three: "snd (sfdc_audit_log (Some secret) (JStr secret) (JArr [r1, r2, r3]) queue)
      = queue @ [r3, r2, r1]"
    using assms(1) by (simp add: sfdc_audit_log_def push_def)
  have "shifts (length queue + 3) (queue @ [r3, r2, r1])
      = map Some queue @ [Some r3, Some r2, Some r1]"
    using shifts_append [of queue 3 "[r3, r2, r1]"] by (simp add: numeral_3_eq_3)
  with all code three show ?thesis by simp
qed

theorem ingest_appends_reversed_batch_witness:
  "snd (sfdc_audit_log (Some ''S3CR3T'') (JStr ''S3CR3T'')
         (JArr [JObj [''Action'' \<mapsto> JStr ''Export'', ''CreatedByUser'' \<mapsto> JStr ''alice''],
                JObj [''Action'' \<mapsto> JStr ''Login'', ''CreatedByUser'' \<mapsto> JStr ''bob'']])
         [JObj [''Action'' \<mapsto> JStr ''Logout'']])
     = [JObj [''Action'' \<mapsto> JStr ''Logout''],
        JObj [''Action'' \<mapsto> JStr ''Login'', ''CreatedByUser'' \<mapsto> JStr ''bob''],
        JObj [''Action'' \<mapsto> JStr ''Export'', ''CreatedByUser'' \<mapsto> JStr ''alice'']]
   \<and> shifts 3 (snd (sfdc_audit_log (Some ''S3CR3T'') (JStr ''S3CR3T'')
         (JArr [JStr ''a'', JNull, JObj [''Action'' \<mapsto> JStr ''c'']]) []))
     = [Some (JObj [''Action'' \<mapsto> JStr ''c'']), Some JNull, Some (JStr ''a'')]"
proof -
  have s: "''S3CR3T'' \<noteq> []" by simp
  have b: "[JObj [''Action'' \<mapsto> JStr ''Export'', ''CreatedByUser'' \<mapsto> JStr ''alice''],
            JObj [''Action'' \<mapsto> JStr ''Login'', ''CreatedByUser'' \<mapsto> JStr ''bob'']] \<noteq> []" by simp
  have c: "[JStr ''a'', JNull, JObj [''Action'' \<mapsto> JStr ''c'']] \<noteq> []"
    by simp
  show ?thesis
    using ingest_appends_reversed_batch [OF s b, of "[JObj [''Action'' \<mapsto> JStr ''Logout'']]"]
      ingest_appends_reversed_batch [OF s c, of "[]" "JStr ''a''"
        "JNull" "JObj [''Action'' \<mapsto> JStr ''c'']"]
    by (simp add: numeral_3_eq_3)
qed

subsection \<open>The three outcomes that queue nothing\<close>

lemma secret_unset:
  "\<not> truthy (opt_val secret) \<Longrightarrow>
   sfdc_audit_log secret token logs queue =
     (\<lparr>res_status = 500, res_body = ''Server configuration error.''\<rparr>, queue)"
  by (simp add: sfdc_audit_log_def)

lemma token_rejected:
  "truthy (opt_val secret) \<Longrightarrow> \<not> truthy token \<or> \<not> strict_eq token secret \<Longrightarrow>
   sfdc_audit_log secret token logs queue =
     (\<lparr>res_status = 401, res_body = ''Unauthorized: Invalid token.''\<rparr>, queue)"
  by (simp add: sfdc_audit_log_def)

lemma nothing_to_queue:
  "truthy (opt_val secret) \<Longrightarrow> truthy token \<Longrightarrow> strict_eq token secret \<Longrightarrow>
   \<not> truthy logs \<or> \<not> isArray logs \<or> elements logs = [] \<Longrightarrow>
   sfdc_audit_log secret token logs queue =
     (\<lparr>res_status = 202, res_body = ''Accepted. No logs to process.''\<rparr>, queue)"
  by (simp add: sfdc_audit_log_def)

lemma strict_eq_iff: "strict_eq token (Some s) \<longleftrightarrow> token = JStr s"
  by (cases token) auto

lemma wrong_token_keeps_queue:
  "\<not> strict_eq token secret \<Longrightarrow> snd (sfdc_audit_log secret token logs queue) = queue"
  by (simp add: sfdc_audit_log_def)

lemma handle_all_wrong_tokens:
  "list_all (\<lambda>(token, logs). \<not> strict_eq token secret) reqs \<Longrightarrow>
   handle_all secret reqs queue = queue"
proof (induction reqs arbitrary: queue)
  case Nil
  then show ?case by simp
next
  case (Cons r reqs)
  obtain token logs where r: "r = (token, logs)" by (cases r)
  from Cons.prems r have "\<not> strict_eq token secret"
    and rest: "list_all (\<lambda>(token, logs). \<not> strict_eq token secret) reqs"
    by simp_all
  then show ?case
    using Cons.IH [OF rest] r by (simp add: wrong_token_keeps_queue)
qed

text \<open>
  C4. The checks come in this order, and none of the three outcomes changes the queue:
  with the secret unset every request gets 500; with the secret set, a request whose
  token is missing or is not the secret gets 401; with the secret set and the token equal
  to it, a \<open>logs\<close> that is absent, is not an array or is an empty array gets 202 with
  nothing queued. Any number of requests carrying wrong tokens leaves the queue as it was.
\<close>

theorem ingest_check_order:
  "sfdc_audit_log None token logs queue =
     (\<lparr>res_status = 500, res_body = ''Server configuration error.''\<rparr>, queue)
   \<and> (secret \<noteq> [] \<and> (token = JUndefined \<or> token \<noteq> JStr secret) \<longrightarrow>
        sfdc_audit_log (Some secret) token logs queue =
          (\<lparr>res_status = 401, res_body = ''Unauthorized: Invalid token.''\<rparr>, queue))
   \<and> (secret \<noteq> [] \<and> (logs = JUndefined \<or> \<not> isArray logs \<or> logs = JArr []) \<longrightarrow>
        sfdc_audit_log (Some secret) (JStr secret) logs queue =
          (\<lparr>res_status = 202, res_body = ''Accepted. No logs to process.''\<rparr>, queue))
   \<and> (list_all (\<lambda>(token, logs). token \<noteq> JStr secret) reqs \<longrightarrow>
        handle_all (Some secret) reqs queue = queue)"
proof (intro conjI impI)
  show "sfdc_audit_log None token logs queue =
     (\<lparr>res_status = 500, res_body = ''Server configuration error.''\<rparr>, queue)"
    by (simp add: secret_unset)
next
  assume a: "secret \<noteq> [] \<and> (token = JUndefined \<or> token \<noteq> JStr secret)"
  then have "\<not> strict_eq token (Some secret)" by (auto simp: strict_eq_iff)
  with a show "sfdc_audit_log (Some secret) token logs queue =
          (\<lparr>res_status = 401, res_body = ''Unauthorized: Invalid token.''\<rparr>, queue)"
    by (simp add: token_rejected)
next
  assume a: "secret \<noteq> [] \<and> (logs = JUndefined \<or> \<not> isArray logs \<or> logs = JArr [])"
  then have "\<not> truthy logs \<or> \<not> isArray logs \<or> elements logs = []" by auto
  with a show "sfdc_audit_log (Some secret) (JStr secret) logs queue =
          (\<lparr>res_status = 202, res_body = ''Accepted. No logs to process.''\<rparr>, queue)"
    by (simp add: nothing_to_queue)
next
  assume "list_all (\<lambda>(token, logs). token \<noteq> JStr secret) reqs"
  then have "list_all (\<lambda>(token, logs). \<not> strict_eq token (Some secret)) reqs"
    by (simp add: strict_eq_iff)
  then show "handle_all (Some secret) reqs queue = queue"
    by (rule handle_all_wrong_tokens)
qed

theorem ingest_check_order_witness:
  "sfdc_audit_log None (JStr ''S3CR3T'') (JArr [JObj [''Action'' \<mapsto> JStr ''Login'']]) [JObj [''Action'' \<mapsto> JStr ''Logout'']]
     = (\<lparr>res_status = 500, res_body = ''Server configuration error.''\<rparr>, [JObj [''Action'' \<mapsto> JStr ''Logout'']])
   \<and> sfdc_audit_log (Some ''S3CR3T'') JUndefined (JArr [JObj [''Action'' \<mapsto> JStr ''Login'']]) [JObj [''Action'' \<mapsto> JStr ''Logout'']]
     = (\<lparr>res_status = 401, res_body = ''Unauthorized: Invalid token.''\<rparr>, [JObj [''Action'' \<mapsto> JStr ''Logout'']])
   \<and> sfdc_audit_log (Some ''S3CR3T'') (JStr ''S3CR3T'') (JArr []) [JObj [''Action'' \<mapsto> JStr ''Logout'']]
     = (\<lparr>res_status = 202, res_body = ''Accepted. No logs to process.''\<rparr>, [JObj [''Action'' \<mapsto> JStr ''Logout'']])
   \<and> handle_all (Some ''S3CR3T'')
        [(JStr ''guess'', JArr [JObj [''Action'' \<mapsto> JStr ''Login'']]), (JNum False ''7'', JArr [JObj [''Action'' \<mapsto> JStr ''Login'']])]
        [JObj [''Action'' \<mapsto> JStr ''Logout'']]
     = [JObj [''Action'' \<mapsto> JStr ''Logout'']]"
  using
    ingest_check_order [of "JStr ''S3CR3T''" "JArr [JObj [''Action'' \<mapsto> JStr ''Login'']]"
      "[JObj [''Action'' \<mapsto> JStr ''Logout'']]" "''S3CR3T''" "[]"]
    ingest_check_order [of JUndefined "JArr [JObj [''Action'' \<mapsto> JStr ''Login'']]"
      "[JObj [''Action'' \<mapsto> JStr ''Logout'']]" "''S3CR3T''" "[]"]
    ingest_check_order [of "JStr ''S3CR3T''" "JArr []"
      "[JObj [''Action'' \<mapsto> JStr ''Logout'']]" "''S3CR3T''"
      "[(JStr ''guess'', JArr [JObj [''Action'' \<mapsto> JStr ''Login'']]), (JNum False ''7'', JArr [JObj [''Action'' \<mapsto> JStr ''Login'']])]"]
  by simp

text \<open>
  C9. An empty-string secret counts as not configured: whatever the token (the empty
  string included) and whatever the logs, the answer is 500 and the queue is left as it
  was; so with the secret empty or unset no request is ever accepted.
\<close>

theorem empty_secret_is_unconfigured:
  "secret = None \<or> secret = Some [] \<Longrightarrow>
   sfdc_audit_log secret token logs queue =
     (\<lparr>res_status = 500, res_body = ''Server configuration error.''\<rparr>, queue)
   \<and> res_status (fst (sfdc_audit_log secret token logs queue)) \<noteq> 202
   \<and> handle_all secret reqs queue = queue"
proof -
  assume s: "secret = None \<or> secret = Some []"
  then have f: "\<not> truthy (opt_val secret)" by auto
  have "handle_all secret rs q = q" for rs q
  proof (induction rs arbitrary: q)
    case Nil
    show ?case by simp
  next
    case (Cons r rs)
    then show ?case by (cases r) (simp add: secret_unset [OF f])
  qed
  then show ?thesis by (simp add: secret_unset [OF f])
qed

theorem empty_secret_is_unconfigured_witness:
  "sfdc_audit_log (Some []) (JStr []) (JArr [JObj [''Action'' \<mapsto> JStr ''Login'']]) [JObj [''Action'' \<mapsto> JStr ''Logout'']]
     = (\<lparr>res_status = 500, res_body = ''Server configuration error.''\<rparr>, [JObj [''Action'' \<mapsto> JStr ''Logout'']])
   \<and> handle_all (Some []) [(JStr [], JArr [JObj [''Action'' \<mapsto> JStr ''Login'']])] [JObj [''Action'' \<mapsto> JStr ''Logout'']]
     = [JObj [''Action'' \<mapsto> JStr ''Logout'']]"
  using empty_secret_is_unconfigured [of "Some []" "JStr []" "JArr [JObj [''Action'' \<mapsto> JStr ''Login'']]"
      "[JObj [''Action'' \<mapsto> JStr ''Logout'']]" "[(JStr [], JArr [JObj [''Action'' \<mapsto> JStr ''Login'']])]"]
  by simp

section \<open>Properties of the message\<close>

lemma and_then_simps [simp]:
  "and_then (Inl e) f = Inl e"
  "and_then (Inr x) f = f x"
  by (simp_all add: and_then_def)

lemma and_then_Inr: "and_then r f = Inr y \<Longrightarrow> \<exists>x. r = Inr x \<and> f x = Inr y"
  by (cases r) simp_all

lemma field_text_object:
  "field_text (JObj props) name =
     toString (or_else (case props name of None \<Rightarrow> JUndefined | Some v \<Rightarrow> v) (JStr ''N/A''))"
  by (simp add: field_text_def)

lemma field_text_absent: "get log name = Inr JUndefined \<Longrightarrow> field_text log name = Inr ''N/A''"
  by (simp add: field_text_def or_else_def)

lemma field_text_string:
  "field_text (string_record strs) name =
     Inr (case strs name of None \<Rightarrow> ''N/A'' | Some v \<Rightarrow> if v = [] then ''N/A'' else v)"
  by (cases "strs name") (simp_all add: field_text_def string_record_def or_else_def)

lemma message_lines:
  assumes "slack_message log = Inr msg"
  shows "\<exists>v1 v2 v3 v4 v5 v6.
      field_text log ''Action'' = Inr v1 \<and> field_text log ''Section'' = Inr v2 \<and>
      field_text log ''Display'' = Inr v3 \<and> field_text log ''CreatedByUser'' = Inr v4 \<and>
      field_text log ''AuditCreatedDate'' = Inr v5 \<and> field_text log ''DelegateUser'' = Inr v6 \<and>
      msg = \<lparr>message_text =
               spec_join newline
                 [spec_line ''Action'' v1, spec_line ''Section'' v2, spec_line ''Display'' v3,
                  spec_line ''Created By User'' v4, spec_line ''Created Date'' v5,
                  spec_line ''Delegate User'' v6]\<rparr>"
proof -
  from assms obtain v1 where 1: "field_text log ''Action'' = Inr v1"
    unfolding slack_message_def by (cases "field_text log ''Action''") simp_all
  from assms 1 obtain v2 where 2: "field_text log ''Section'' = Inr v2"
    unfolding slack_message_def by (cases "field_text log ''Section''") simp_all
  from assms 1 2 obtain v3 where 3: "field_text log ''Display'' = Inr v3"
    unfolding slack_message_def by (cases "field_text log ''Display''") simp_all
  from assms 1 2 3 obtain v4 where 4: "field_text log ''CreatedByUser'' = Inr v4"
    unfolding slack_message_def by (cases "field_text log ''CreatedByUser''") simp_all
  from assms 1 2 3 4 obtain v5 where 5: "field_text log ''AuditCreatedDate'' = Inr v5"
    unfolding slack_message_def by (cases "field_text log ''AuditCreatedDate''") simp_all
  from assms 1 2 3 4 5 obtain v6 where 6: "field_text log ''DelegateUser'' = Inr v6"
    unfolding slack_message_def by (cases "field_text log ''DelegateUser''") simp_all
  from assms 1 2 3 4 5 6 show ?thesis
    by (simp add: slack_message_def spec_line_def)
qed

lemma message_of_strings:
  "slack_message (string_record strs) =
     Inr \<lparr>message_text =
        spec_join newline
          (map (\<lambda>(label, field).
                  spec_line label
                    (case strs field of
                       None \<Rightarrow> ''N/A''
                     | Some v \<Rightarrow> if v = [] then ''N/A'' else v))
             [(''Action'', ''Action''), (''Section'', ''Section''), (''Display'', ''Display''),
              (''Created By User'', ''CreatedByUser''), (''Created Date'', ''AuditCreatedDate''),
              (''Delegate User'', ''DelegateUser'')])\<rparr>"
  by (simp add: slack_message_def field_text_string spec_line_def)

lemma post_uses_message:
  "postToSlack url fetch log =
   postToSlack url
     (\<lambda>u m. case slack_message log of Inr msg \<Rightarrow> fetch u msg | Inl e \<Rightarrow> Pending) log"
  by (cases "slack_message log") (simp_all add: postToSlack.simps)

text \<open>
  C6. Whenever a message is built, it is an object with the one field \<^verbatim>\<open>text\<close>, the
  newline-join of six \<^verbatim>\<open>*Label:* value\<close> lines for the fields Action, Section, Display,
  CreatedByUser, AuditCreatedDate and DelegateUser in this order, each value being the
  text of \<^verbatim>\<open>log.field || 'N/A'\<close>; the value of an absent field is \<^verbatim>\<open>N/A\<close>. For a record
  whose fields are strings the message is always built, and a field holding a non-empty
  string has that string as its value. This message is the payload: \<^verbatim>\<open>postToSlack\<close>
  asks \<^verbatim>\<open>fetch\<close> about no other.
\<close>

theorem message_is_six_lines:
  "(slack_message log = Inr msg \<longrightarrow>
      (\<exists>v1 v2 v3 v4 v5 v6.
         field_text log ''Action'' = Inr v1 \<and> field_text log ''Section'' = Inr v2 \<and>
         field_text log ''Display'' = Inr v3 \<and> field_text log ''CreatedByUser'' = Inr v4 \<and>
         field_text log ''AuditCreatedDate'' = Inr v5 \<and>
         field_text log ''DelegateUser'' = Inr v6 \<and>
         msg = \<lparr>message_text =
                  spec_join newline
                    [spec_line ''Action'' v1, spec_line ''Section'' v2,
                     spec_line ''Display'' v3, spec_line ''Created By User'' v4,
                     spec_line ''Created Date'' v5, spec_line ''Delegate User'' v6]\<rparr>))
   \<and> (get log name = Inr JUndefined \<longrightarrow> field_text log name = Inr ''N/A'')
   \<and> slack_message (string_record strs) =
       Inr \<lparr>message_text =
          spec_join newline
            (map (\<lambda>(label, field).
                    spec_line label
                      (case strs field of
                         None \<Rightarrow> ''N/A''
                       | Some v \<Rightarrow> if v = [] then ''N/A'' else v))
               [(''Action'', ''Action''), (''Section'', ''Section''), (''Display'', ''Display''),
                (''Created By User'', ''CreatedByUser''),
                (''Created Date'', ''AuditCreatedDate''),
                (''Delegate User'', ''DelegateUser'')])\<rparr>
   \<and> postToSlack url fetch log =
       postToSlack url
         (\<lambda>u m. case slack_message log of Inr msg \<Rightarrow> fetch u msg | Inl e \<Rightarrow> Pending) log"
  using message_lines [of log msg] field_text_absent [of log name] message_of_strings [of strs]
    post_uses_message [of url fetch log]
  by blast

theorem message_is_six_lines_witness:
  "slack_message export =
     Inr \<lparr>message_text =
        ''*Action:* Export'' @ newline @ ''*Section:* N/A'' @ newline @
        ''*Display:* N/A'' @ newline @ ''*Created By User:* alice'' @ newline @
        ''*Created Date:* N/A'' @ newline @ ''*Delegate User:* N/A''\<rparr>
   \<and> field_text (JArr [JNum False ''1'', JNull, JBool True]) ''Action'' = Inr ''N/A''"
proof -
  have e: "export = string_record
      [''Action'' \<mapsto> ''Export'', ''CreatedByUser'' \<mapsto> ''alice'', ''Section'' \<mapsto> []]"
    by (auto simp: export_def string_record_def)
  have g: "get (JArr [JNum False ''1'', JNull, JBool True]) ''Action'' = Inr JUndefined"
    by simp
  show ?thesis
    using message_is_six_lines [of export _ "''Action''"
        "[''Action'' \<mapsto> ''Export'', ''CreatedByUser'' \<mapsto> ''alice'', ''Section'' \<mapsto> []]"
        "Some hook" slack_up]
      message_is_six_lines [of "JArr [JNum False ''1'', JNull, JBool True]" _ "''Action''"] g
    unfolding e [symmetric]
    by (simp add: spec_line_def)
qed

lemma field_text_na_iff:
  "get log name = Inr v \<Longrightarrow>
   field_text log name = Inr ''N/A'' \<longleftrightarrow> \<not> truthy v \<or> toString v = Inr ''N/A''"
  by (auto simp: field_text_def or_else_def)

lemma falsy_as_absent:
  assumes "props name = Some v" and "\<not> truthy v"
  shows "slack_message (JObj props) = slack_message (JObj (props(name := None)))"
proof -
  have "field_text (JObj props) n = field_text (JObj (props(name := None))) n" for n
    using assms by (simp add: field_text_def or_else_def)
  then show ?thesis by (simp add: slack_message_def)
qed

text \<open>
  C10, as stated, fails: a field that holds the string \<^verbatim>\<open>N/A\<close> is present and truthy,
  and its rendered value is \<^verbatim>\<open>N/A\<close>; the message is the one of a record without the
  field. The same goes for a field that holds the array of that one string.
\<close>

theorem na_only_if_falsy_counterexample:
  "get (JObj [''Action'' \<mapsto> JStr ''N/A'']) ''Action'' = Inr (JStr ''N/A'')
   \<and> truthy (JStr ''N/A'')
   \<and> field_text (JObj [''Action'' \<mapsto> JStr ''N/A'']) ''Action'' = Inr ''N/A''
   \<and> slack_message (JObj [''Action'' \<mapsto> JStr ''N/A'']) = slack_message (JObj Map.empty)
   \<and> truthy (JArr [JStr ''N/A''])
   \<and> field_text (JObj [''Action'' \<mapsto> JArr [JStr ''N/A'']]) ''Action'' = Inr ''N/A''"
  by (simp add: slack_message_def field_text_def or_else_def)

text \<open>
  C10, amended. A field that is present but holds a falsy value (the empty string, zero,
  \<^verbatim>\<open>false\<close>, \<^verbatim>\<open>null\<close>) renders as \<^verbatim>\<open>N/A\<close> exactly as an absent field does: the message
  is the one of the record without the field. For every record and every field read
  from it, the rendered value is \<^verbatim>\<open>N/A\<close> if and only if the field's value is absent or
  falsy, or is a truthy value whose conversion to a string is itself \<^verbatim>\<open>N/A\<close>. The
  rendered values are the values of the six lines of the message.
\<close>

theorem falsy_field_renders_na:
  "(props name = Some v \<and> \<not> truthy v \<longrightarrow>
      slack_message (JObj props) = slack_message (JObj (props(name := None)))
      \<and> field_text (JObj props) name = Inr ''N/A'')
   \<and> (field_text (JObj props) name = Inr ''N/A'' \<longleftrightarrow>
        props name = None
        \<or> (\<exists>v. props name = Some v \<and> (\<not> truthy v \<or> toString v = Inr ''N/A'')))
   \<and> (get log name = Inr v \<longrightarrow>
        (field_text log name = Inr ''N/A'' \<longleftrightarrow> \<not> truthy v \<or> toString v = Inr ''N/A''))
   \<and> (slack_message log = Inr msg \<longrightarrow>
        (\<exists>v1 v2 v3 v4 v5 v6.
           field_text log ''Action'' = Inr v1 \<and> field_text log ''Section'' = Inr v2 \<and>
           field_text log ''Display'' = Inr v3 \<and> field_text log ''CreatedByUser'' = Inr v4 \<and>
           field_text log ''AuditCreatedDate'' = Inr v5 \<and>
           field_text log ''DelegateUser'' = Inr v6 \<and>
           msg = \<lparr>message_text =
                    spec_join newline
                      [spec_line ''Action'' v1, spec_line ''Section'' v2,
                       spec_line ''Display'' v3, spec_line ''Created By User'' v4,
                       spec_line ''Created Date'' v5, spec_line ''Delegate User'' v6]\<rparr>))"
proof (intro conjI impI)
  assume a: "props name = Some v \<and> \<not> truthy v"
  then show "slack_message (JObj props) = slack_message (JObj (props(name := None)))"
    using falsy_as_absent [of props name v] by simp
  from a show "field_text (JObj props) name = Inr ''N/A''"
    by (simp add: field_text_def or_else_def)
next
  show "field_text (JObj props) name = Inr ''N/A'' \<longleftrightarrow>
        props name = None
        \<or> (\<exists>v. props name = Some v \<and> (\<not> truthy v \<or> toString v = Inr ''N/A''))"
    by (cases "props name") (auto simp: field_text_def or_else_def)
next
  assume "get log name = Inr v"
  then show "field_text log name = Inr ''N/A'' \<longleftrightarrow> \<not> truthy v \<or> toString v = Inr ''N/A''"
    by (rule field_text_na_iff)
next
  assume "slack_message log = Inr msg"
  then show "\<exists>v1 v2 v3 v4 v5 v6.
           field_text log ''Action'' = Inr v1 \<and> field_text log ''Section'' = Inr v2 \<and>
           field_text log ''Display'' = Inr v3 \<and> field_text log ''CreatedByUser'' = Inr v4 \<and>
           field_text log ''AuditCreatedDate'' = Inr v5 \<and>
           field_text log ''DelegateUser'' = Inr v6 \<and>
           msg = \<lparr>message_text =
                    spec_join newline
                      [spec_line ''Action'' v1, spec_line ''Section'' v2,
                       spec_line ''Display'' v3, spec_line ''Created By User'' v4,
                       spec_line ''Created Date'' v5, spec_line ''Delegate User'' v6]\<rparr>"
    by (rule message_lines)
qed

theorem falsy_field_renders_na_witness:
  "slack_message export = slack_message (JObj [''Action'' \<mapsto> JStr ''Export'',
       ''CreatedByUser'' \<mapsto> JStr ''alice''])
   \<and> field_text export ''Section'' = Inr ''N/A''
   \<and> field_text (JObj [''Display'' \<mapsto> JNum True ''0'']) ''Display'' = Inr ''N/A''
   \<and> field_text (JObj [''Display'' \<mapsto> JBool False]) ''Display'' = Inr ''N/A''
   \<and> field_text (JObj [''Display'' \<mapsto> JNull]) ''Display'' = Inr ''N/A''
   \<and> field_text export ''Display'' = Inr ''N/A''
   \<and> field_text export ''Action'' \<noteq> Inr ''N/A''"
proof -
  let ?P = "[''Action'' \<mapsto> JStr ''Export'', ''CreatedByUser'' \<mapsto> JStr ''alice'',
      ''Section'' \<mapsto> JStr []]"
  have e: "export = JObj ?P"
    by (simp add: export_def)
  have d: "?P(''Section'' := None) =
      [''Action'' \<mapsto> JStr ''Export'', ''CreatedByUser'' \<mapsto> JStr ''alice'']"
    by auto
  have 1: "slack_message (JObj ?P) = slack_message (JObj (?P(''Section'' := None)))
      \<and> field_text (JObj ?P) ''Section'' = Inr ''N/A''"
    using falsy_field_renders_na [of ?P "''Section''" "JStr []", THEN conjunct1] by simp
  have 2: "field_text (JObj [''Display'' \<mapsto> JNum True ''0'']) ''Display'' = Inr ''N/A''"
    using falsy_field_renders_na [of "[''Display'' \<mapsto> JNum True ''0'']" "''Display''"
        "JNum True ''0''", THEN conjunct1] by simp
  have 3: "field_text (JObj [''Display'' \<mapsto> JBool False]) ''Display'' = Inr ''N/A''"
    using falsy_field_renders_na [of "[''Display'' \<mapsto> JBool False]" "''Display''"
        "JBool False", THEN conjunct1] by simp
  have 4: "field_text (JObj [''Display'' \<mapsto> JNull]) ''Display'' = Inr ''N/A''"
    using falsy_field_renders_na [of "[''Display'' \<mapsto> JNull]" "''Display''" JNull,
        THEN conjunct1] by simp
  have 5: "field_text (JObj ?P) ''Display'' = Inr ''N/A''"
    using falsy_field_renders_na [of ?P "''Display''", THEN conjunct2, THEN conjunct1]
    by simp
  have g: "get (JObj ?P) ''Action'' = Inr (JStr ''Export'')"
    by simp
  have 6: "field_text (JObj ?P) ''Action'' \<noteq> Inr ''N/A''"
    using falsy_field_renders_na [of _ _ "JStr ''Export''" "JObj ?P", THEN conjunct2,
        THEN conjunct2, THEN conjunct1, of "''Action''"] g
    by simp
  from 1 2 3 4 5 6 show ?thesis
    unfolding d e by blast
qed

section \<open>Properties of delivery\<close>

lemma postToSlack_no_url:
  "\<not> truthy (opt_val url) \<Longrightarrow> postToSlack url fetch log = Settled 0 (Inr ())"
  by (simp add: postToSlack.simps)

lemma postToSlack_throws:
  "u \<noteq> [] \<Longrightarrow> slack_message log = Inl e \<Longrightarrow>
   postToSlack (Some u) fetch log = Settled 0 (Inl e)"
  by (simp add: postToSlack.simps)

lemma postToSlack_pending:
  "u \<noteq> [] \<Longrightarrow> slack_message log = Inr msg \<Longrightarrow> fetch u msg = Pending \<Longrightarrow>
   postToSlack (Some u) fetch log = Pending"
  by (simp add: postToSlack.simps)

lemma postToSlack_network_error:
  "u \<noteq> [] \<Longrightarrow> slack_message log = Inr msg \<Longrightarrow> fetch u msg = Settled t (Inl e) \<Longrightarrow>
   postToSlack (Some u) fetch log = Settled t (Inl e)"
  by (simp add: postToSlack.simps)

lemma postToSlack_not_ok:
  "u \<noteq> [] \<Longrightarrow> slack_message log = Inr msg \<Longrightarrow> fetch u msg = Settled t (Inr r) \<Longrightarrow>
   \<not> ok r \<Longrightarrow>
   postToSlack (Some u) fetch log =
     Settled t (Inl (Error (''Slack API error: '' @ show_nat (status r) @ '' '' @ body_text r)))"
  by (simp add: postToSlack.simps)

lemma postToSlack_ok:
  "u \<noteq> [] \<Longrightarrow> slack_message log = Inr msg \<Longrightarrow> fetch u msg = Settled t (Inr r) \<Longrightarrow>
   ok r \<Longrightarrow> postToSlack (Some u) fetch log = Settled t (Inr ())"
  by (simp add: postToSlack.simps)

lemma fulfilled_has_message:
  "truthy (opt_val url) \<Longrightarrow> postToSlack url fetch log = Settled t (Inr ()) \<Longrightarrow>
   \<exists>msg. slack_message log = Inr msg"
  by (cases "slack_message log") (simp_all add: postToSlack.simps)

lemma rejected_iff: "rejected p \<longleftrightarrow> (\<exists>t e. p = Settled t (Inl e))"
  by (cases p rule: rejected.cases) auto

lemma throws_iff: "throws r \<longleftrightarrow> (\<exists>e. r = Inl e)"
  by (cases r) auto

lemma rejected_needs_url:
  "rejected (postToSlack url fetch log) \<Longrightarrow> truthy (opt_val url)"
  by (cases "truthy (opt_val url)") (simp_all add: postToSlack_no_url)

subsection \<open>The console line after a delivery\<close>

lemma falsy_toString: "\<not> truthy v \<Longrightarrow> \<not> throws (toString v)"
  by (cases v) simp_all

lemma field_text_printable:
  assumes "field_text log name = Inr s"
  shows "\<exists>v. get log name = Inr v \<and> \<not> throws (toString v)"
proof -
  from assms obtain v where g: "get log name = Inr v"
    and t: "toString (or_else v (JStr ''N/A'')) = Inr s"
    unfolding field_text_def by (cases "get log name") simp_all
  have "\<not> throws (toString v)"
  proof (cases "truthy v")
    case True
    with t show ?thesis by (simp add: or_else_def)
  next
    case False
    then show ?thesis by (rule falsy_toString)
  qed
  with g show ?thesis by blast
qed

lemma posted_line_ok:
  assumes "get log ''Action'' = Inr a" and "\<not> throws (toString a)"
    and "get log ''CreatedByUser'' = Inr u" and "\<not> throws (toString u)"
  shows "\<not> throws (posted_line log)"
  using assms by (auto simp: posted_line_def throws_iff and_then_def split: sum.splits)

lemma message_printable:
  assumes "slack_message log = Inr msg"
  shows "\<not> throws (posted_line log)"
proof -
  from message_lines [OF assms] obtain v1 v4 where
    "field_text log ''Action'' = Inr v1" and "field_text log ''CreatedByUser'' = Inr v4"
    by blast
  then obtain a u where "get log ''Action'' = Inr a" "\<not> throws (toString a)"
    "get log ''CreatedByUser'' = Inr u" "\<not> throws (toString u)"
    using field_text_printable by blast
  then show ?thesis by (rule posted_line_ok)
qed

lemma delivered_printable:
  "truthy (opt_val url) \<Longrightarrow> postToSlack url fetch log = Settled t (Inr ()) \<Longrightarrow>
   \<not> throws (posted_line log)"
  using fulfilled_has_message message_printable by blast

lemma string_record_printable: "\<not> throws (posted_line (string_record strs))"
  using message_of_strings [of strs] message_printable by blast

lemma posted_line_null: "throws (posted_line JNull)"
  by (simp add: posted_line_def)

subsection \<open>One run of the worker\<close>

lemma tick_rejected:
  "rejected (postToSlack url fetch log) \<Longrightarrow>
   \<exists>t. processQueue url fetch (log # rest) =
     \<lparr>queue_after = log # rest, attempted = Some log, next_run = Some (t + THROTTLE_DELAY_MS)\<rparr>"
  by (auto simp: rejected_iff unshift_def)

lemma tick_delivered:
  "postToSlack url fetch log = Settled t (Inr ()) \<Longrightarrow> \<not> throws (posted_line log) \<Longrightarrow>
   processQueue url fetch (log # rest) =
     \<lparr>queue_after = rest, attempted = Some log, next_run = Some (t + THROTTLE_DELAY_MS)\<rparr>"
  by (cases "posted_line log") simp_all

lemma tick_line_throws:
  "postToSlack url fetch log = Settled t (Inr ()) \<Longrightarrow> throws (posted_line log) \<Longrightarrow>
   processQueue url fetch (log # rest) =
     \<lparr>queue_after = log # rest, attempted = Some log, next_run = Some (t + THROTTLE_DELAY_MS)\<rparr>"
  by (cases "posted_line log") (simp_all add: unshift_def)

lemma tick_pending:
  "postToSlack url fetch log = Pending \<Longrightarrow>
   processQueue url fetch (log # rest) =
     \<lparr>queue_after = rest, attempted = Some log, next_run = None\<rparr>"
  by simp

lemma tick_no_url:
  "\<not> truthy (opt_val url) \<Longrightarrow> \<not> throws (posted_line log) \<Longrightarrow>
   processQueue url fetch (log # rest) =
     \<lparr>queue_after = rest, attempted = Some log, next_run = Some THROTTLE_DELAY_MS\<rparr>"
  using tick_delivered [of url fetch log 0 rest] by (simp add: postToSlack_no_url)

lemma tick_attempts_head: "attempted (processQueue url fetch (log # rest)) = Some log"
  by (simp split: awaited.split sum.split)

lemma tick_queue: "queue_after (processQueue url fetch (log # rest)) \<in> {rest, log # rest}"
  by (simp split: awaited.split sum.split add: unshift_def)

lemma tick_depends_on_head:
  assumes "slack_message log = Inr msg" and "fetch u msg = fetch' u msg"
  shows "processQueue (Some u) fetch (log # rest) = processQueue (Some u) fetch' (log # rest)"
proof -
  have "postToSlack (Some u) fetch log = postToSlack (Some u) fetch' log"
    using assms by (simp add: postToSlack.simps)
  then show ?thesis by simp
qed

subsection \<open>The example records at the example Slacks\<close>

lemma login_message: "\<exists>msg. slack_message login = Inr msg"
  by (simp add: slack_message_def field_text_def or_else_def login_def)

lemma login_refused: "postToSlack (Some hook) slack_refuses login =
    Settled 80 (Inl (Error (''Slack API error: '' @ show_nat 503 @ '' service_unavailable'')))"
  using login_message
  by (auto simp: postToSlack.simps hook_def slack_refuses_def ok_def)

lemma login_unreachable: "postToSlack (Some hook) slack_unreachable login =
    Settled 30 (Inl (Error ''connect ECONNREFUSED''))"
  using login_message
  by (auto simp: postToSlack.simps hook_def slack_unreachable_def)

lemma login_delivered: "postToSlack (Some hook) slack_up login = Settled 120 (Inr ())"
  using login_message
  by (auto simp: postToSlack.simps hook_def slack_up_def ok_def)

subsection \<open>Runs of the worker\<close>

lemma run_append: "run secret url (xs @ ys) s = run secret url ys (run secret url xs s)"
  by (induction xs arbitrary: s) simp_all

lemma request_appends:
  "\<exists>new. snd (sfdc_audit_log secret token logs queue) = queue @ new"
  by (simp add: sfdc_audit_log_def push_def)

lemma step_failing:
  assumes "attempt_fails url ev s"
  shows "\<exists>new. step secret url ev s =
           \<lparr>messageQueue = messageQueue s @ new, timer_set = timer_set s,
            attempts = attempts s @
              (if is_tick ev \<and> timer_set s then take 1 (messageQueue s) else [])\<rparr>"
proof (cases ev)
  case (Request token logs)
  obtain new where "snd (sfdc_audit_log secret token logs (messageQueue s)) = messageQueue s @ new"
    using request_appends by blast
  with Request show ?thesis by (cases s) auto
next
  case (Tick fetch)
  show ?thesis
  proof (cases "messageQueue s")
    case Nil
    with Tick show ?thesis by (cases s) auto
  next
    case (Cons log rest)
    with assms Tick have "rejected (postToSlack url fetch log)" by simp
    from tick_rejected [OF this, of rest] obtain t where
      "processQueue url fetch (log # rest) =
        \<lparr>queue_after = log # rest, attempted = Some log,
         next_run = Some (t + THROTTLE_DELAY_MS)\<rparr>"
      by blast
    with Tick Cons show ?thesis
      by (cases s) (auto simp: Let_def simp del: processQueue.simps)
  qed
qed

lemma failing_run_lengths:
  "every_attempt_fails secret url evs s \<Longrightarrow>
   sorted (map (\<lambda>s. length (messageQueue s)) (trace secret url evs s))"
proof (induction evs arbitrary: s)
  case Nil
  show ?case by simp
next
  case (Cons ev evs)
  from Cons.prems have f: "attempt_fails url ev s"
    and r: "every_attempt_fails secret url evs (step secret url ev s)" by simp_all
  from step_failing [OF f, of secret] obtain new where
    st: "messageQueue (step secret url ev s) = messageQueue s @ new"
    by (metis server.select_convs(1))
  have hd: "trace secret url evs s' \<noteq> [] \<and> hd (trace secret url evs s') = s'" for s'
    by (cases evs) simp_all
  have "sorted (map (\<lambda>s. length (messageQueue s)) (trace secret url evs (step secret url ev s)))"
    using Cons.IH [OF r] .
  moreover have
    "\<forall>x \<in> set (map (\<lambda>s. length (messageQueue s)) (trace secret url evs (step secret url ev s))).
      length (messageQueue (step secret url ev s)) \<le> x"
    using calculation hd [of "step secret url ev s"]
    by (cases "trace secret url evs (step secret url ev s)") auto
  ultimately show ?case using st by auto
qed

lemma failing_run_head:
  "every_attempt_fails secret url evs s \<Longrightarrow> messageQueue s = A # rest \<Longrightarrow> timer_set s \<Longrightarrow>
   \<exists>new. run secret url evs s =
     \<lparr>messageQueue = A # rest @ new, timer_set = True,
      attempts = attempts s @ replicate (length (filter is_tick evs)) A\<rparr>"
proof (induction evs arbitrary: s rest)
  case Nil
  then show ?case by (cases s) auto
next
  case (Cons ev evs)
  from Cons.prems have f: "attempt_fails url ev s"
    and r: "every_attempt_fails secret url evs (step secret url ev s)" by simp_all
  from step_failing [OF f, of secret] obtain new where
    st: "step secret url ev s =
           \<lparr>messageQueue = A # rest @ new, timer_set = True,
            attempts = attempts s @ (if is_tick ev then [A] else [])\<rparr>"
    using Cons.prems(2,3) by auto
  from Cons.IH [OF r, of "rest @ new"] st obtain new' where
    "run secret url evs (step secret url ev s) =
      \<lparr>messageQueue = A # (rest @ new) @ new', timer_set = True,
       attempts = attempts (step secret url ev s) @ replicate (length (filter is_tick evs)) A\<rparr>"
    by auto
  with st show ?case by (auto simp: replicate_append_same)
qed

lemma run_no_url:
  "\<not> truthy (opt_val url) \<Longrightarrow> list_all (\<lambda>log. \<not> throws (posted_line log)) q \<Longrightarrow>
   run secret url (map Tick fs) \<lparr>messageQueue = q, timer_set = True, attempts = as\<rparr> =
     \<lparr>messageQueue = drop (length fs) q, timer_set = True,
      attempts = as @ take (length fs) q\<rparr>"
proof (induction fs arbitrary: q as)
  case Nil
  show ?case by simp
next
  case (Cons f fs)
  show ?case
  proof (cases q)
    case Nil
    have "step secret url (Tick f) \<lparr>messageQueue = [], timer_set = True, attempts = as\<rparr> =
        \<lparr>messageQueue = [], timer_set = True, attempts = as\<rparr>"
      by simp
    then show ?thesis
      using Cons.IH [OF Cons.prems(1), of "[]" as] Nil by simp
  next
    case (Cons log rest)
    with Cons.prems have p: "\<not> throws (posted_line log)"
      and r: "list_all (\<lambda>log. \<not> throws (posted_line log)) rest" by simp_all
    have "step secret url (Tick f) \<lparr>messageQueue = log # rest, timer_set = True, attempts = as\<rparr> =
        \<lparr>messageQueue = rest, timer_set = True, attempts = as @ [log]\<rparr>"
      using Cons.prems(1) p by (simp add: tick_no_url del: processQueue.simps)
    then show ?thesis
      using Cons.IH [OF Cons.prems(1) r, of "as @ [log]"] Cons by simp
  qed
qed

lemma failing_ticks:
  "list_all (\<lambda>f. rejected (postToSlack url f A)) fs \<Longrightarrow>
   run secret url (map Tick fs) \<lparr>messageQueue = A # q, timer_set = True, attempts = as\<rparr> =
     \<lparr>messageQueue = A # q, timer_set = True, attempts = as @ replicate (length fs) A\<rparr>"
proof (induction fs arbitrary: as)
  case Nil
  show ?case by simp
next
  case (Cons f fs)
  from Cons.prems have r: "rejected (postToSlack url f A)"
    and rest: "list_all (\<lambda>f. rejected (postToSlack url f A)) fs" by simp_all
  from tick_rejected [OF r, of q] obtain t where
    "processQueue url f (A # q) =
      \<lparr>queue_after = A # q, attempted = Some A, next_run = Some (t + THROTTLE_DELAY_MS)\<rparr>"
    by blast
  then have "step secret url (Tick f) \<lparr>messageQueue = A # q, timer_set = True, attempts = as\<rparr> =
      \<lparr>messageQueue = A # q, timer_set = True, attempts = as @ [A]\<rparr>"
    by (simp del: processQueue.simps)
  then show ?case
    using Cons.IH [OF rest, of "as @ [A]"] by (simp add: replicate_app_Cons_same)
qed

subsection \<open>What a run does with the head of the queue\<close>

text \<open>
  Without the webhook URL a \<^verbatim>\<open>null\<close> record is put back, not by a failed delivery but
  by the console line after it, which throws inside the \<^verbatim>\<open>try\<close>.
\<close>

lemma null_record_requeued:
  "\<not> truthy (opt_val url) \<Longrightarrow>
   queue_after (processQueue url fetch (JNull # rest)) = JNull # rest"
  using tick_line_throws [of url fetch JNull 0 rest]
  by (simp add: postToSlack_no_url posted_line_null del: processQueue.simps)

text \<open>
  C1, as stated, fails: with the webhook URL unset, a tick on the queue of \<open>login\<close> and
  \<open>export\<close> leaves \<open>export\<close> alone in the queue, though Slack is unreachable, and two
  ticks leave it empty with each record handed to \<^verbatim>\<open>postToSlack\<close> once.
\<close>

theorem missing_url_requeue_counterexample:
  "queue_after (processQueue None slack_unreachable [login, export]) = [export]
   \<and> queue_after (processQueue None slack_unreachable [login, export]) \<noteq> [login, export]
   \<and> run (Some ''S3CR3T'') None [Tick slack_unreachable, Tick slack_unreachable]
        \<lparr>messageQueue = [login, export], timer_set = True, attempts = []\<rparr>
      = \<lparr>messageQueue = [], timer_set = True, attempts = [login, export]\<rparr>"
proof -
  have l: "posted_line login = Inr ''Posted log to Slack: Login by bob''"
    by (simp add: posted_line_def login_def)
  have e: "posted_line export = Inr ''Posted log to Slack: Export by alice''"
    by (simp add: posted_line_def export_def)
  show ?thesis
    by (simp add: postToSlack.simps l e)
qed

text \<open>
  C1, amended. With the webhook URL missing (unset or empty) the delivery attempt is not
  a failure: \<^verbatim>\<open>postToSlack\<close> returns at once without a call to Slack and without
  throwing, whatever the record. A popped record whose console line
  \<^verbatim>\<open>Posted log to Slack: ...\<close> can be written, as it can for every object with string
  fields, is then dropped: it leaves the queue, is not put back and is not retried, and
  \<open>n\<close> ticks remove the first \<open>n\<close> such records, each attempted once. A delivery
  failure needs the URL to be configured.
\<close>

theorem missing_url_drops_record:
  "(\<not> truthy (opt_val url) \<longrightarrow> postToSlack url fetch log = Settled 0 (Inr ()))
   \<and> (\<not> truthy (opt_val url) \<and> \<not> throws (posted_line log) \<longrightarrow>
        processQueue url fetch (log # rest) =
          \<lparr>queue_after = rest, attempted = Some log, next_run = Some THROTTLE_DELAY_MS\<rparr>)
   \<and> (\<not> truthy (opt_val url) \<and> list_all (\<lambda>log. \<not> throws (posted_line log)) queue \<longrightarrow>
        run secret url (map Tick fs) \<lparr>messageQueue = queue, timer_set = True, attempts = []\<rparr> =
          \<lparr>messageQueue = drop (length fs) queue, timer_set = True,
           attempts = take (length fs) queue\<rparr>)
   \<and> \<not> throws (posted_line (string_record strs))
   \<and> (rejected (postToSlack url fetch log) \<longrightarrow> truthy (opt_val url))"
proof (intro conjI impI)
  assume "\<not> truthy (opt_val url)"
  then show "postToSlack url fetch log = Settled 0 (Inr ())"
    by (rule postToSlack_no_url)
next
  assume "\<not> truthy (opt_val url) \<and> \<not> throws (posted_line log)"
  then show "processQueue url fetch (log # rest) =
          \<lparr>queue_after = rest, attempted = Some log, next_run = Some THROTTLE_DELAY_MS\<rparr>"
    using tick_no_url by blast
next
  assume "\<not> truthy (opt_val url) \<and> list_all (\<lambda>log. \<not> throws (posted_line log)) queue"
  then show "run secret url (map Tick fs)
      \<lparr>messageQueue = queue, timer_set = True, attempts = []\<rparr> =
          \<lparr>messageQueue = drop (length fs) queue, timer_set = True,
           attempts = take (length fs) queue\<rparr>"
    using run_no_url [of url queue secret fs "[]"] by simp
next
  show "\<not> throws (posted_line (string_record strs))"
    by (rule string_record_printable)
next
  assume "rejected (postToSlack url fetch log)"
  then show "truthy (opt_val url)" by (rule rejected_needs_url)
qed

theorem missing_url_drops_record_witness:
  "postToSlack (Some []) slack_refuses JNull = Settled 0 (Inr ())
   \<and> processQueue (Some []) slack_refuses [login, export] =
       \<lparr>queue_after = [export], attempted = Some login, next_run = Some THROTTLE_DELAY_MS\<rparr>
   \<and> run None (Some []) (map Tick [slack_refuses, slack_up, slack_hangs])
        \<lparr>messageQueue = [login, export], timer_set = True, attempts = []\<rparr> =
      \<lparr>messageQueue = [], timer_set = True, attempts = [login, export]\<rparr>
   \<and> truthy (opt_val (Some hook))"
proof -
  have u: "\<not> truthy (opt_val (Some []))" by simp
  have l: "\<not> throws (posted_line login)"
    by (simp add: posted_line_def login_def)
  have e: "\<not> throws (posted_line export)"
    by (simp add: posted_line_def export_def)
  have r: "rejected (postToSlack (Some hook) slack_unreachable login)"
    by (simp add: postToSlack.simps hook_def slack_unreachable_def slack_message_def
        field_text_def or_else_def login_def)
  have 1: "postToSlack (Some []) slack_refuses JNull = Settled 0 (Inr ())"
    using missing_url_drops_record [of "Some []" slack_refuses JNull, THEN conjunct1] u
    by blast
  have 2: "processQueue (Some []) slack_refuses (login # [export]) =
       \<lparr>queue_after = [export], attempted = Some login, next_run = Some THROTTLE_DELAY_MS\<rparr>"
    using missing_url_drops_record [of "Some []" slack_refuses login "[export]",
        THEN conjunct2, THEN conjunct1] u l
    by blast
  have 3: "run None (Some []) (map Tick [slack_refuses, slack_up, slack_hangs])
        \<lparr>messageQueue = [login, export], timer_set = True, attempts = []\<rparr> =
      \<lparr>messageQueue = drop (length [slack_refuses, slack_up, slack_hangs]) [login, export],
       timer_set = True,
       attempts = take (length [slack_refuses, slack_up, slack_hangs]) [login, export]\<rparr>"
    using missing_url_drops_record [of "Some []" _ _ _ "[login, export]" None
        "[slack_refuses, slack_up, slack_hangs]",
        THEN conjunct2, THEN conjunct2, THEN conjunct1] u l e
    by simp
  have 4: "truthy (opt_val (Some hook))"
    using missing_url_drops_record [of "Some hook" slack_unreachable login,
        THEN conjunct2, THEN conjunct2, THEN conjunct2, THEN conjunct2] r
    by blast
  from 1 2 3 4 show ?thesis by simp
qed

text \<open>
  C3. A run of \<^verbatim>\<open>processQueue\<close> whose delivery fails leaves the queue as it found it
  (no request being handled meanwhile): from the queue \<open>A\<close>, \<open>B\<close>, ... the failed record
  \<open>A\<close> is back at the head. However many such runs follow one another, each hands \<open>A\<close>
  to \<^verbatim>\<open>postToSlack\<close> and none hands it \<open>B\<close>; the first run whose delivery succeeds
  removes \<open>A\<close> and leaves \<open>B\<close> at the head. (With the webhook URL configured a delivery
  that succeeded is always followed by a console line that can be written; without the
  URL the removal needs that line not to throw.)
\<close>

theorem retry_preserves_order:
  "(rejected (postToSlack url fetch A) \<longrightarrow>
      queue_after (processQueue url fetch (A # B # rest)) = A # B # rest
      \<and> attempted (processQueue url fetch (A # B # rest)) = Some A)
   \<and> (list_all (\<lambda>f. rejected (postToSlack url f A)) fs \<longrightarrow>
        run secret url (map Tick fs)
          \<lparr>messageQueue = A # B # rest, timer_set = True, attempts = []\<rparr> =
        \<lparr>messageQueue = A # B # rest, timer_set = True, attempts = replicate (length fs) A\<rparr>)
   \<and> (list_all (\<lambda>f. rejected (postToSlack url f A)) fs
        \<and> postToSlack url g A = Settled t (Inr ())
        \<and> (truthy (opt_val url) \<or> \<not> throws (posted_line A)) \<longrightarrow>
        run secret url (map Tick fs @ [Tick g])
          \<lparr>messageQueue = A # B # rest, timer_set = True, attempts = []\<rparr> =
        \<lparr>messageQueue = B # rest, timer_set = True, attempts = replicate (length fs) A @ [A]\<rparr>)"
proof (intro conjI impI)
  assume "rejected (postToSlack url fetch A)"
  from tick_rejected [OF this, of "B # rest"]
  show "queue_after (processQueue url fetch (A # B # rest)) = A # B # rest"
    and "attempted (processQueue url fetch (A # B # rest)) = Some A"
    by auto
next
  assume "list_all (\<lambda>f. rejected (postToSlack url f A)) fs"
  from failing_ticks [OF this, of secret "B # rest" "[]"]
  show "run secret url (map Tick fs)
          \<lparr>messageQueue = A # B # rest, timer_set = True, attempts = []\<rparr> =
        \<lparr>messageQueue = A # B # rest, timer_set = True, attempts = replicate (length fs) A\<rparr>"
    by simp
next
  assume a: "list_all (\<lambda>f. rejected (postToSlack url f A)) fs
        \<and> postToSlack url g A = Settled t (Inr ())
        \<and> (truthy (opt_val url) \<or> \<not> throws (posted_line A))"
  then have p: "\<not> throws (posted_line A)"
    using delivered_printable [of url g A t] by blast
  from a have d: "postToSlack url g A = Settled t (Inr ())" by simp
  have "processQueue url g (A # B # rest) =
      \<lparr>queue_after = B # rest, attempted = Some A, next_run = Some (t + THROTTLE_DELAY_MS)\<rparr>"
    using tick_delivered [OF d p] .
  moreover from a have "list_all (\<lambda>f. rejected (postToSlack url f A)) fs" by simp
  ultimately show "run secret url (map Tick fs @ [Tick g])
          \<lparr>messageQueue = A # B # rest, timer_set = True, attempts = []\<rparr> =
        \<lparr>messageQueue = B # rest, timer_set = True, attempts = replicate (length fs) A @ [A]\<rparr>"
    using failing_ticks [of url A fs secret "B # rest" "[]"]
    by (simp add: run_append del: processQueue.simps)
qed

theorem retry_preserves_order_witness:
  "queue_after (processQueue (Some hook) slack_refuses [login, export]) = [login, export]
   \<and> run None (Some hook) (map Tick [slack_refuses, slack_unreachable])
        \<lparr>messageQueue = [login, export], timer_set = True, attempts = []\<rparr> =
      \<lparr>messageQueue = [login, export], timer_set = True, attempts = [login, login]\<rparr>
   \<and> run None (Some hook) (map Tick [slack_refuses, slack_unreachable] @ [Tick slack_up])
        \<lparr>messageQueue = [login, export], timer_set = True, attempts = []\<rparr> =
      \<lparr>messageQueue = [export], timer_set = True, attempts = [login, login, login]\<rparr>"
proof -
  have r1: "rejected (postToSlack (Some hook) slack_refuses login)"
    by (simp add: login_refused)
  have l: "list_all (\<lambda>f. rejected (postToSlack (Some hook) f login))
      [slack_refuses, slack_unreachable]"
    by (simp add: login_refused login_unreachable)
  have h: "truthy (opt_val (Some hook))" by (simp add: hook_def)
  note T = retry_preserves_order [of "Some hook" slack_refuses login export "[]"
        "[slack_refuses, slack_unreachable]" None slack_up 120]
  have 1: "queue_after (processQueue (Some hook) slack_refuses [login, export]) = [login, export]"
    using T [THEN conjunct1] r1 by blast
  have 2: "run None (Some hook) (map Tick [slack_refuses, slack_unreachable])
        \<lparr>messageQueue = [login, export], timer_set = True, attempts = []\<rparr> =
      \<lparr>messageQueue = [login, export], timer_set = True,
       attempts = replicate (length [slack_refuses, slack_unreachable]) login\<rparr>"
    using T [THEN conjunct2, THEN conjunct1] l by blast
  have 3: "run None (Some hook) (map Tick [slack_refuses, slack_unreachable] @ [Tick slack_up])
        \<lparr>messageQueue = [login, export], timer_set = True, attempts = []\<rparr> =
      \<lparr>messageQueue = [export], timer_set = True,
       attempts = replicate (length [slack_refuses, slack_unreachable]) login @ [login]\<rparr>"
    using T [THEN conjunct2, THEN conjunct2] l login_delivered h by blast
  have n: "replicate (length [slack_refuses, slack_unreachable]) login = [login, login]"
    by (simp add: numeral_2_eq_2)
  from 1 2 3 show ?thesis unfolding n by simp
qed

text \<open>
  C5. A run of \<^verbatim>\<open>processQueue\<close> on an empty queue hands over nothing and leaves the
  queue empty. On a non-empty queue it hands \<^verbatim>\<open>postToSlack\<close> the head and nothing else:
  the rest of the queue is left as it is, Slack is asked about the message of the head
  only, a delivery that Slack accepts removes the head, and a delivery that fails leaves
  the queue as it was. So while every delivery attempt fails, whatever requests come in
  between, the length of the queue never decreases from one event to the next, and every
  run of the worker attempts the record that was at the head at the start.
\<close>

theorem head_never_skipped:
  "processQueue url fetch [] =
     \<lparr>queue_after = [], attempted = None, next_run = Some THROTTLE_DELAY_MS\<rparr>
   \<and> attempted (processQueue url fetch (log # rest)) = Some log
   \<and> queue_after (processQueue url fetch (log # rest)) \<in> {rest, log # rest}
   \<and> (u \<noteq> [] \<and> slack_message log = Inr msg \<and> fetch u msg = Settled t (Inr r) \<and> ok r \<longrightarrow>
        processQueue (Some u) fetch (log # rest) =
          \<lparr>queue_after = rest, attempted = Some log,
           next_run = Some (t + THROTTLE_DELAY_MS)\<rparr>)
   \<and> (slack_message log = Inr msg \<and> fetch u msg = fetch' u msg \<longrightarrow>
        processQueue (Some u) fetch (log # rest) = processQueue (Some u) fetch' (log # rest))
   \<and> (rejected (postToSlack url fetch log) \<longrightarrow>
        queue_after (processQueue url fetch (log # rest)) = log # rest)
   \<and> (every_attempt_fails secret url evs s \<longrightarrow>
        sorted (map (\<lambda>s. length (messageQueue s)) (trace secret url evs s)))
   \<and> (every_attempt_fails secret url evs s \<and> messageQueue s = log # rest \<and> timer_set s \<longrightarrow>
        attempts (run secret url evs s) =
          attempts s @ replicate (length (filter is_tick evs)) log
        \<and> take 1 (messageQueue (run secret url evs s)) = [log])"
proof (intro conjI impI)
  show "processQueue url fetch [] =
       \<lparr>queue_after = [], attempted = None, next_run = Some THROTTLE_DELAY_MS\<rparr>"
    by simp
  show "attempted (processQueue url fetch (log # rest)) = Some log"
    by (rule tick_attempts_head)
  show "queue_after (processQueue url fetch (log # rest)) \<in> {rest, log # rest}"
    by (rule tick_queue)
next
  assume a: "u \<noteq> [] \<and> slack_message log = Inr msg \<and> fetch u msg = Settled t (Inr r) \<and> ok r"
  then have d: "postToSlack (Some u) fetch log = Settled t (Inr ())"
    using postToSlack_ok [of u log msg fetch t r] by blast
  from a have "\<not> throws (posted_line log)"
    using message_printable by blast
  from tick_delivered [OF d this]
  show "processQueue (Some u) fetch (log # rest) =
          \<lparr>queue_after = rest, attempted = Some log,
           next_run = Some (t + THROTTLE_DELAY_MS)\<rparr>" .
next
  assume "slack_message log = Inr msg \<and> fetch u msg = fetch' u msg"
  then show "processQueue (Some u) fetch (log # rest) = processQueue (Some u) fetch' (log # rest)"
    using tick_depends_on_head [of log msg fetch u fetch' rest] by blast
next
  assume "rejected (postToSlack url fetch log)"
  from tick_rejected [OF this, of rest]
  show "queue_after (processQueue url fetch (log # rest)) = log # rest"
    by auto
next
  assume "every_attempt_fails secret url evs s"
  then show "sorted (map (\<lambda>s. length (messageQueue s)) (trace secret url evs s))"
    by (rule failing_run_lengths)
next
  assume a: "every_attempt_fails secret url evs s \<and> messageQueue s = log # rest \<and> timer_set s"
  then obtain new where r: "run secret url evs s =
      \<lparr>messageQueue = log # rest @ new, timer_set = True,
       attempts = attempts s @ replicate (length (filter is_tick evs)) log\<rparr>"
    using failing_run_head [of secret url evs s log rest] by blast
  show "attempts (run secret url evs s) =
          attempts s @ replicate (length (filter is_tick evs)) log"
    by (simp add: r)
  show "take 1 (messageQueue (run secret url evs s)) = [log]"
    by (simp add: r)
qed

theorem head_never_skipped_witness:
  "processQueue (Some hook) slack_up [login, export] =
     \<lparr>queue_after = [export], attempted = Some login, next_run = Some (120 + THROTTLE_DELAY_MS)\<rparr>
   \<and> queue_after (processQueue (Some hook) slack_refuses [login, export]) = [login, export]
   \<and> sorted (map (\<lambda>s. length (messageQueue s))
        (trace (Some ''S3CR3T'') (Some hook)
          [Tick slack_refuses, Request (JStr ''S3CR3T'') (JArr [export]), Tick slack_unreachable]
          \<lparr>messageQueue = [login], timer_set = True, attempts = []\<rparr>))
   \<and> attempts (run (Some ''S3CR3T'') (Some hook)
          [Tick slack_refuses, Request (JStr ''S3CR3T'') (JArr [export]), Tick slack_unreachable]
          \<lparr>messageQueue = [login], timer_set = True, attempts = []\<rparr>) = [login, login]"
proof -
  let ?evs = "[Tick slack_refuses, Request (JStr ''S3CR3T'') (JArr [export]),
      Tick slack_unreachable]"
  let ?s = "\<lparr>messageQueue = [login], timer_set = True, attempts = []\<rparr>"
  obtain msg where m: "slack_message login = Inr msg"
    using login_message by blast
  have h: "hook \<noteq> []" by (simp add: hook_def)
  have up: "slack_up hook msg = Settled 120 (Inr \<lparr>status = 200, body_text = ''ok''\<rparr>)"
    by (simp add: slack_up_def)
  have k: "ok \<lparr>status = 200, body_text = ''ok''\<rparr>" by (simp add: ok_def)
  have r1: "rejected (postToSlack (Some hook) slack_refuses login)"
    by (simp add: login_refused)
  have f: "every_attempt_fails (Some ''S3CR3T'') (Some hook) ?evs ?s"
    by (simp add: login_refused login_unreachable unshift_def sfdc_audit_log_def push_def)
  have 1: "processQueue (Some hook) slack_up (login # [export]) =
     \<lparr>queue_after = [export], attempted = Some login, next_run = Some (120 + THROTTLE_DELAY_MS)\<rparr>"
    using head_never_skipped [of "Some hook" slack_up login "[export]" hook msg 120
        "\<lparr>status = 200, body_text = ''ok''\<rparr>", THEN conjunct2, THEN conjunct2, THEN conjunct2,
        THEN conjunct1] h m up k
    by blast
  have 2: "queue_after (processQueue (Some hook) slack_refuses (login # [export])) =
      login # [export]"
    using head_never_skipped [of "Some hook" slack_refuses login "[export]", THEN conjunct2,
        THEN conjunct2, THEN conjunct2, THEN conjunct2, THEN conjunct2, THEN conjunct1] r1
    by blast
  have 3: "sorted (map (\<lambda>s. length (messageQueue s))
      (trace (Some ''S3CR3T'') (Some hook) ?evs ?s))"
    using head_never_skipped [where url = "Some hook" and secret = "Some ''S3CR3T''"
        and evs = ?evs and s = ?s,
        THEN conjunct2, THEN conjunct2, THEN conjunct2, THEN conjunct2, THEN conjunct2,
        THEN conjunct2, THEN conjunct1] f
    by blast
  have 4: "attempts (run (Some ''S3CR3T'') (Some hook) ?evs ?s) =
      attempts ?s @ replicate (length (filter is_tick ?evs)) login"
    using head_never_skipped [where url = "Some hook" and log = login and rest = "[]"
        and secret = "Some ''S3CR3T''" and evs = ?evs and s = ?s,
        THEN conjunct2, THEN conjunct2, THEN conjunct2, THEN conjunct2, THEN conjunct2,
        THEN conjunct2, THEN conjunct2] f
    by simp
  have n: "attempts ?s @ replicate (length (filter is_tick ?evs)) login = [login, login]"
    by (simp add: numeral_2_eq_2)
  from 1 2 3 4 show ?thesis unfolding n by simp
qed

text \<open>
  C8, as stated, fails: with Slack answering after 5000 ms the next run is due 6100 ms
  after the start of this one, not 1100 ms; with a call to Slack that never settles no
  next run is scheduled at all.
\<close>

theorem periodic_schedule_counterexample:
  "next_run (processQueue (Some hook) slack_slow [login]) = Some 6100
   \<and> next_run (processQueue (Some hook) slack_slow [login]) \<noteq> Some THROTTLE_DELAY_MS
   \<and> next_run (processQueue (Some hook) slack_hangs [login]) = None"
proof -
  obtain msg where m: "slack_message login = Inr msg"
    using login_message by blast
  have s: "postToSlack (Some hook) slack_slow login = Settled 5000 (Inr ())"
    using m by (simp add: postToSlack.simps hook_def slack_slow_def ok_def)
  have p: "postToSlack (Some hook) slack_hangs login = Pending"
    using m by (simp add: postToSlack.simps hook_def slack_hangs_def)
  have l: "posted_line login = Inr ''Posted log to Slack: Login by bob''"
    by (simp add: posted_line_def login_def)
  show ?thesis
    by (simp add: s p l THROTTLE_DELAY_MS_def)
qed

text \<open>
  C8, amended. The timer of the next run is set \<^verbatim>\<open>THROTTLE_DELAY_MS\<close> after the
  delivery attempt has settled, whether it succeeded or failed: that is
  \<^verbatim>\<open>THROTTLE_DELAY_MS\<close> after the start of a run that finds the queue empty or the
  webhook URL missing or cannot build the message, and the time Slack took plus
  \<^verbatim>\<open>THROTTLE_DELAY_MS\<close> after the start of a run that called Slack. Nothing bounds
  the time of the attempt: while the call to Slack does not settle, no next run is
  scheduled.
\<close>

theorem next_run_follows_delivery:
  "next_run (processQueue url fetch []) = Some THROTTLE_DELAY_MS
   \<and> (\<not> truthy (opt_val url) \<longrightarrow>
        next_run (processQueue url fetch queue) = Some THROTTLE_DELAY_MS)
   \<and> (u \<noteq> [] \<and> slack_message log = Inl e \<longrightarrow>
        next_run (processQueue (Some u) fetch (log # rest)) = Some THROTTLE_DELAY_MS)
   \<and> (u \<noteq> [] \<and> slack_message log = Inr msg \<and> fetch u msg = Settled t outcome \<longrightarrow>
        next_run (processQueue (Some u) fetch (log # rest)) = Some (t + THROTTLE_DELAY_MS))
   \<and> (u \<noteq> [] \<and> slack_message log = Inr msg \<and> fetch u msg = Pending \<longrightarrow>
        next_run (processQueue (Some u) fetch (log # rest)) = None
        \<and> \<not> timer_set (step secret (Some u) (Tick fetch)
              \<lparr>messageQueue = log # rest, timer_set = True, attempts = []\<rparr>))"
proof (intro conjI impI)
  show "next_run (processQueue url fetch []) = Some THROTTLE_DELAY_MS"
    by simp
next
  assume "\<not> truthy (opt_val url)"
  then show "next_run (processQueue url fetch queue) = Some THROTTLE_DELAY_MS"
    by (cases queue) (simp_all add: postToSlack_no_url split: sum.split)
next
  assume "u \<noteq> [] \<and> slack_message log = Inl e"
  then show "next_run (processQueue (Some u) fetch (log # rest)) = Some THROTTLE_DELAY_MS"
    by (simp add: postToSlack_throws)
next
  assume "u \<noteq> [] \<and> slack_message log = Inr msg \<and> fetch u msg = Settled t outcome"
  then show "next_run (processQueue (Some u) fetch (log # rest)) = Some (t + THROTTLE_DELAY_MS)"
    by (cases outcome) (simp_all add: postToSlack.simps split: sum.split)
next
  assume a: "u \<noteq> [] \<and> slack_message log = Inr msg \<and> fetch u msg = Pending"
  then have p: "postToSlack (Some u) fetch log = Pending"
    using postToSlack_pending by blast
  then show "next_run (processQueue (Some u) fetch (log # rest)) = None"
    by simp
  from p show "\<not> timer_set (step secret (Some u) (Tick fetch)
              \<lparr>messageQueue = log # rest, timer_set = True, attempts = []\<rparr>)"
    by simp
qed

theorem next_run_follows_delivery_witness:
  "next_run (processQueue None slack_slow [login]) = Some THROTTLE_DELAY_MS
   \<and> next_run (processQueue (Some hook) slack_up [JNull]) = Some THROTTLE_DELAY_MS
   \<and> next_run (processQueue (Some hook) slack_refuses [login]) = Some (80 + THROTTLE_DELAY_MS)
   \<and> next_run (processQueue (Some hook) slack_up [login]) = Some (120 + THROTTLE_DELAY_MS)
   \<and> next_run (processQueue (Some hook) slack_hangs [login]) = None"
proof -
  obtain msg where m: "slack_message login = Inr msg"
    using login_message by blast
  have h: "hook \<noteq> []" by (simp add: hook_def)
  have n: "\<not> truthy (opt_val None)" by simp
  have z: "slack_message JNull = Inl TypeError"
    by (simp add: slack_message_def field_text_def)
  have 1: "next_run (processQueue None slack_slow [login]) = Some THROTTLE_DELAY_MS"
    using next_run_follows_delivery [of None slack_slow "[login]", THEN conjunct2,
        THEN conjunct1] n
    by blast
  have 2: "next_run (processQueue (Some hook) slack_up (JNull # [])) = Some THROTTLE_DELAY_MS"
    using next_run_follows_delivery [of _ slack_up _ hook JNull TypeError "[]", THEN conjunct2,
        THEN conjunct2, THEN conjunct1] h z
    by blast
  have 3: "next_run (processQueue (Some hook) slack_refuses (login # [])) =
      Some (80 + THROTTLE_DELAY_MS)"
    using next_run_follows_delivery [of _ slack_refuses _ hook login _ "[]" msg 80
        "Inr \<lparr>status = 503, body_text = ''service_unavailable''\<rparr>", THEN conjunct2,
        THEN conjunct2, THEN conjunct2, THEN conjunct1] h m
    by (simp add: slack_refuses_def del: processQueue.simps)
  have 4: "next_run (processQueue (Some hook) slack_up (login # [])) =
      Some (120 + THROTTLE_DELAY_MS)"
    using next_run_follows_delivery [of _ slack_up _ hook login _ "[]" msg 120
        "Inr \<lparr>status = 200, body_text = ''ok''\<rparr>", THEN conjunct2,
        THEN conjunct2, THEN conjunct2, THEN conjunct1] h m
    by (simp add: slack_up_def del: processQueue.simps)
  have 5: "next_run (processQueue (Some hook) slack_hangs (login # [])) = None"
    using next_run_follows_delivery [of _ slack_hangs _ hook login _ "[]" msg,
        THEN conjunct2, THEN conjunct2, THEN conjunct2, THEN conjunct2] h m
    by (simp add: slack_hangs_def del: processQueue.simps step.simps)
  from 1 2 3 4 5 show ?thesis by simp
qed

subsection \<open>Responses outside 200 to 299\<close>

lemma sublist_mid: "sublist xs (ps @ xs @ ss)"
  by (auto simp: sublist_def)

text \<open>
  C7. With the webhook URL configured, a response whose status is outside 200 to 299
  makes \<^verbatim>\<open>postToSlack\<close> throw an error whose message holds the status in decimal and
  the body of the response; the run of \<^verbatim>\<open>processQueue\<close> then puts the record back at
  the head of the queue, as for any failed delivery.
\<close>

theorem non_2xx_is_failure:
  assumes "u \<noteq> []"
    and "slack_message log = Inr msg"
    and "fetch u msg = Settled t (Inr r)"
    and "status r < 200 \<or> 300 \<le> status r"
  shows "postToSlack (Some u) fetch log =
           Settled t (Inl (Error (''Slack API error: '' @ show_nat (status r) @ '' '' @ body_text r)))
       \<and> rejected (postToSlack (Some u) fetch log)
       \<and> sublist (show_nat (status r))
           (''Slack API error: '' @ show_nat (status r) @ '' '' @ body_text r)
       \<and> sublist (body_text r)
           (''Slack API error: '' @ show_nat (status r) @ '' '' @ body_text r)
       \<and> queue_after (processQueue (Some u) fetch (log # rest)) = log # rest"
proof -
  from assms(4) have "\<not> ok r" by (auto simp: ok_def)
  with assms(1,2,3) postToSlack_not_ok [of u log msg fetch t r]
  have p: "postToSlack (Some u) fetch log =
      Settled t (Inl (Error (''Slack API error: '' @ show_nat (status r) @ '' '' @ body_text r)))"
    by simp
  have s1: "sublist (show_nat (status r))
           (''Slack API error: '' @ show_nat (status r) @ '' '' @ body_text r)"
    by (rule sublist_mid)
  have s2: "sublist (body_text r)
           ((''Slack API error: '' @ show_nat (status r) @ '' '') @ body_text r @ [])"
    by (rule sublist_mid)
  from p s1 s2 show ?thesis by (simp add: unshift_def)
qed

theorem non_2xx_is_failure_witness:
  "postToSlack (Some hook) slack_refuses login =
     Settled 80 (Inl (Error ''Slack API error: 503 service_unavailable''))
   \<and> queue_after (processQueue (Some hook) slack_refuses [login, export]) = [login, export]"
proof -
  obtain msg where m: "slack_message login = Inr msg"
    using login_message by blast
  have h: "hook \<noteq> []" by (simp add: hook_def)
  have f: "slack_refuses hook msg =
      Settled 80 (Inr \<lparr>status = 503, body_text = ''service_unavailable''\<rparr>)"
    by (simp add: slack_refuses_def)
  have s: "status \<lparr>status = 503, body_text = ''service_unavailable''\<rparr> < 200
         \<or> 300 \<le> status \<lparr>status = 503, body_text = ''service_unavailable''\<rparr>"
    by simp
  have d: "show_nat 503 = ''503''" by code_simp
  note T = non_2xx_is_failure [of hook login msg slack_refuses 80
        "\<lparr>status = 503, body_text = ''service_unavailable''\<rparr>" "[export]", OF h m f s]
  have 1: "postToSlack (Some hook) slack_refuses login =
     Settled 80 (Inl (Error ''Slack API error: 503 service_unavailable''))"
    using T [THEN conjunct1] by (simp add: d)
  have 2: "queue_after (processQueue (Some hook) slack_refuses (login # [export])) =
      login # [export]"
    using T [THEN conjunct2, THEN conjunct2, THEN conjunct2, THEN conjunct2] .
  from 1 2 show ?thesis by simp
qed

end
